theory Spec2Isabelle
  imports Main "HOL-Library.Code_Target_Nat"
begin

section \<open>Strings of the component\<close>

text \<open>
  A JavaScript string is modelled as a \<^typ>\<open>string\<close>: a list of characters whose codes are
  below 256, read as the code units U+0000 to U+00FF. On such strings the string methods that
  \<^verbatim>\<open>App.tsx\<close> calls (\<^verbatim>\<open>toLowerCase\<close>, \<^verbatim>\<open>includes\<close>, \<^verbatim>\<open>trim\<close>, \<^verbatim>\<open>padStart\<close>,
  \<^verbatim>\<open>toString\<close> of an integer) are the functions below.
\<close>

definition lower_char :: "char \<Rightarrow> char" where
  \<comment> \<open>the lower-case mapping of one code unit below 256: A to Z, and the accented capitals
      U+00C0 to U+00DE except the multiplication sign U+00D7\<close>
  "lower_char c =
     (let n = of_char c :: nat
      in if (65 \<le> n \<and> n \<le> 90) \<or> (192 \<le> n \<and> n \<le> 222 \<and> n \<noteq> 215)
         then char_of (n + 32) else c)"

definition toLowerCase :: "string \<Rightarrow> string" where
  "toLowerCase s = map lower_char s"

fun includes_str :: "string \<Rightarrow> string \<Rightarrow> bool" where
  \<comment> \<open>\<^verbatim>\<open>s.includes(pat)\<close>: does \<open>pat\<close> occur in \<open>s\<close> at some position\<close>
  "includes_str [] pat = (pat = [])"
| "includes_str (c # cs) pat = (take (length pat) (c # cs) = pat \<or> includes_str cs pat)"

definition is_white_space :: "char \<Rightarrow> bool" where
  \<comment> \<open>the white space and line terminators below U+0100: TAB, LF, VT, FF, CR, SP, NBSP\<close>
  "is_white_space c = (of_char c \<in> {9, 10, 11, 12, 13, 32, 160 :: nat})"

definition trim :: "string \<Rightarrow> string" where
  "trim s = rev (dropWhile is_white_space (rev (dropWhile is_white_space s)))"

definition padStart :: "nat \<Rightarrow> char \<Rightarrow> string \<Rightarrow> string" where
  \<comment> \<open>\<^verbatim>\<open>s.padStart(n, c)\<close> for a one-character filler\<close>
  "padStart n c s = replicate (n - length s) c @ s"

definition digit_char :: "nat \<Rightarrow> char" where
  "digit_char d = char_of (48 + d)"

fun digits_of :: "nat \<Rightarrow> string" where
  "digits_of n = (if n < 10 then [digit_char n] else digits_of (n div 10) @ [digit_char (n mod 10)])"

declare digits_of.simps [simp del]

definition toString :: "nat \<Rightarrow> string" where
  \<comment> \<open>the decimal text of a Number that is a non-negative integer\<close>
  "toString n = digits_of n"

section \<open>Data model\<close>

datatype Icon = Instagram | Twitter | Facebook | Globe

record DetectedPlatform =
  name :: string
  icon :: Icon
  color :: string
  supported :: bool

datatype MediaType = video | image | carousel

text \<open>
  The optional fields \<^verbatim>\<open>title?\<close> and \<^verbatim>\<open>duration?\<close> are options, \<open>None\<close> being
  \<^verbatim>\<open>undefined\<close>. \<^verbatim>\<open>resolution\<close> is read from an array by index, which yields
  \<^verbatim>\<open>undefined\<close> out of range, so it is an option as well.
\<close>

record MediaContent =
  type :: MediaType
  thumbnail :: string
  downloadUrl :: string
  title :: "string option"
  duration :: "string option"
  resolution :: "string option"

definition platforms_instagram :: DetectedPlatform where
  "platforms_instagram =
     \<lparr>name = ''Instagram'', icon = Instagram, color = ''from-pink-500 to-purple-600'', supported = True\<rparr>"

definition platforms_twitter :: DetectedPlatform where
  "platforms_twitter =
     \<lparr>name = ''X (Twitter)'', icon = Twitter, color = ''from-blue-400 to-blue-600'', supported = True\<rparr>"

definition platforms_facebook :: DetectedPlatform where
  "platforms_facebook =
     \<lparr>name = ''Facebook'', icon = Facebook, color = ''from-blue-600 to-blue-800'', supported = True\<rparr>"

definition platforms_threads :: DetectedPlatform where
  "platforms_threads =
     \<lparr>name = ''Threads'', icon = Globe, color = ''from-gray-600 to-gray-800'', supported = True\<rparr>"

definition platforms_default :: DetectedPlatform where
  "platforms_default =
     \<lparr>name = ''Unknown Platform'', icon = Globe, color = ''from-gray-500 to-gray-700'', supported = False\<rparr>"

section \<open>detectPlatform and validateUrl\<close>

definition detectPlatform :: "string \<Rightarrow> DetectedPlatform" where
  "detectPlatform inputUrl =
     (let urlLower = toLowerCase inputUrl
      in if includes_str urlLower ''instagram.com'' then platforms_instagram
         else if includes_str urlLower ''twitter.com'' \<or> includes_str urlLower ''x.com'' then platforms_twitter
         else if includes_str urlLower ''facebook.com'' \<or> includes_str urlLower ''fb.com'' then platforms_facebook
         else if includes_str urlLower ''threads.net'' then platforms_threads
         else platforms_default)"

text \<open>
  \<^verbatim>\<open>new URL(inputUrl)\<close> is the constructor of the JavaScript platform, not code of the
  repository. It is a parameter \<open>URL_new\<close> of the model: \<open>Inr u\<close> is the constructed
  object, \<open>Inl e\<close> the exception thrown. \<^verbatim>\<open>validateUrl\<close> is the try/catch around it.
\<close>

definition validateUrl :: "(string \<Rightarrow> 'e + 'u) \<Rightarrow> string \<Rightarrow> bool" where
  "validateUrl URL_new inputUrl = (case URL_new inputUrl of Inr u \<Rightarrow> True | Inl e \<Rightarrow> False)"

section \<open>Numbers of fetchMediaContent\<close>

text \<open>
  \<^verbatim>\<open>Math.random()\<close> returns an IEEE 754 double \<open>r\<close> with \<open>0 \<le> r < 1\<close>. Every such
  double is \<open>m / 2 ^ E\<close> for a mantissa \<open>m < 2 ^ 53\<close> and a scale \<open>E \<le> 1074\<close>, and a
  \<open>Draw\<close> is such a pair. The source multiplies a draw by an integer and takes
  \<^verbatim>\<open>Math.floor\<close>, and compares a draw with a literal. The product of two doubles is the
  exact product rounded to 53 significant bits, to the nearest double, a tie to the even
  mantissa: \<open>round53\<close> does this to the numerator \<open>m * n\<close> over \<open>2 ^ E\<close>. The literals
  \<^verbatim>\<open>0.1\<close> and \<^verbatim>\<open>0.4\<close> are the doubles nearest to one tenth and to four tenths.
\<close>

record Draw =
  mantissa :: nat
  scale :: nat

definition is_random :: "Draw \<Rightarrow> bool" where
  \<comment> \<open>a double of the range of \<^verbatim>\<open>Math.random()\<close>\<close>
  "is_random r = (mantissa r < 2 ^ 53 \<and> scale r \<le> 1074 \<and> mantissa r < 2 ^ scale r)"

fun bit_length :: "nat \<Rightarrow> nat" where
  "bit_length n = (if n = 0 then 0 else Suc (bit_length (n div 2)))"

declare bit_length.simps [simp del]

definition round53 :: "nat \<Rightarrow> nat" where
  "round53 p =
     (let b = bit_length p
      in if b \<le> 53 then p
         else let s = b - 53;
                  q = p div 2 ^ s;
                  rest = p mod 2 ^ s;
                  half = 2 ^ (s - 1)
              in (if half < rest \<or> (rest = half \<and> odd q) then q + 1 else q) * 2 ^ s)"

definition floor_times :: "Draw \<Rightarrow> nat \<Rightarrow> nat" where
  \<comment> \<open>\<^verbatim>\<open>Math.floor(r * n)\<close>\<close>
  "floor_times r n = round53 (mantissa r * n) div 2 ^ scale r"

definition greater :: "Draw \<Rightarrow> Draw \<Rightarrow> bool" where
  \<comment> \<open>\<^verbatim>\<open>r > c\<close>\<close>
  "greater r c = (mantissa c * 2 ^ scale r < mantissa r * 2 ^ scale c)"

definition literal_0_1 :: Draw where
  "literal_0_1 = \<lparr>mantissa = 3602879701896397, scale = 55\<rparr>"

definition literal_0_4 :: Draw where
  "literal_0_4 = \<lparr>mantissa = 3602879701896397, scale = 53\<rparr>"

section \<open>fetchMediaContent\<close>

text \<open>
  Every call of \<^verbatim>\<open>Math.random()\<close> in \<^verbatim>\<open>fetchMediaContent\<close> is an input of the model, one
  field of \<open>Random\<close> for each call site in the order of the source. The timer only decides
  when the callback runs, which the model leaves to the order of the events, so the draw of
  the delay has no field. The result is \<open>Inr\<close> the content the promise resolves to, or
  \<open>Inl\<close> the message of the \<^verbatim>\<open>Error\<close> it rejects with.
\<close>

record Random =
  random_success :: Draw
  random_isVideo :: Draw
  random_photo :: Draw
  random_file :: Draw
  random_minutes :: Draw
  random_seconds :: Draw
  random_resolution :: Draw

definition array_at :: "'a list \<Rightarrow> nat \<Rightarrow> 'a option" where
  \<comment> \<open>\<^verbatim>\<open>xs[i]\<close>, \<^verbatim>\<open>undefined\<close> out of range\<close>
  "array_at xs i = (if i < length xs then Some (xs ! i) else None)"

definition fetchMediaContent :: "string \<Rightarrow> DetectedPlatform \<Rightarrow> Random \<Rightarrow> string + MediaContent" where
  "fetchMediaContent inputUrl platform rnd =
     (if greater (random_success rnd) literal_0_1 then
        let isVideo = greater (random_isVideo rnd) literal_0_4;
            mockContent =
              \<lparr>type = (if isVideo then video else image),
               thumbnail = ''https://images.pexels.com/photos/''
                 @ toString (1000 + floor_times (random_photo rnd) 2000)
                 @ ''/pexels-photo-''
                 @ toString (1000 + floor_times (random_file rnd) 2000)
                 @ ''.jpeg?auto=compress&cs=tinysrgb&w=400'',
               downloadUrl = inputUrl,
               title = Some (name platform @ '' '' @ (if isVideo then ''Video'' else ''Image'')),
               duration =
                 (if isVideo
                  then Some (toString (floor_times (random_minutes rnd) 3 + 1) @ '':''
                             @ padStart 2 (CHR ''0'') (toString (floor_times (random_seconds rnd) 60)))
                  else None),
               resolution = array_at [''720p'', ''1080p'', ''4K''] (floor_times (random_resolution rnd) 3)\<rparr>
        in Inr mockContent
      else Inl ''Failed to extract media'')"

section \<open>The component state and its handlers\<close>

record SessionState =
  url :: string
  isValidUrl :: bool
  detectedPlatform :: "DetectedPlatform option"
  isProcessing :: bool
  mediaContent :: "MediaContent option"
  error :: "string option"

text \<open>
  \<open>App\<close> is the component between two events: the six state variables, and the calls of
  \<^verbatim>\<open>processUrl\<close> that await their promise, each with the arguments it gave to
  \<^verbatim>\<open>fetchMediaContent\<close>, oldest first.
\<close>

record App =
  session :: SessionState
  inflight :: "(string \<times> DetectedPlatform) list"

definition defaults :: SessionState where
  \<comment> \<open>the arguments of the six \<^verbatim>\<open>useState\<close> calls\<close>
  "defaults = \<lparr>url = [], isValidUrl = False, detectedPlatform = None, isProcessing = False,
                mediaContent = None, error = None\<rparr>"

text \<open>
  A handler of a render reads the state variables as constants of that render: a
  \<^verbatim>\<open>set...\<close> call changes the state for the next render, not the constant. So
  \<^verbatim>\<open>processUrl\<close> and the effect take the state of their render, \<open>render\<close>, for what they
  read, and the component \<open>app\<close> for what they write.

  \<open>processUrl\<close> is the function up to its \<^verbatim>\<open>await\<close>; \<open>processUrl_settled\<close> is the rest
  of it, run when the promise settles with \<open>outcome\<close>.
\<close>

definition processUrl :: "SessionState \<Rightarrow> string \<Rightarrow> App \<Rightarrow> App" where
  "processUrl render inputUrl app =
     (case detectedPlatform render of
        None \<Rightarrow> app
      | Some platform \<Rightarrow>
          if \<not> isValidUrl render \<or> \<not> supported platform then app
          else app\<lparr>session := (session app)\<lparr>isProcessing := True, error := None, mediaContent := None\<rparr>,
                   inflight := inflight app @ [(inputUrl, platform)]\<rparr>)"

definition processUrl_settled :: "string + MediaContent \<Rightarrow> App \<Rightarrow> App" where
  "processUrl_settled outcome app =
     (case outcome of
        Inr content \<Rightarrow>
          app\<lparr>session := (session app)\<lparr>mediaContent := Some content, isProcessing := False\<rparr>\<rparr>
      | Inl err \<Rightarrow>
          app\<lparr>session := (session app)
                 \<lparr>error := Some ''Failed to process the URL. Please check the link and try again.'',
                  isProcessing := False\<rparr>\<rparr>)"

definition clearAndReset_sets :: "App \<Rightarrow> App" where
  \<comment> \<open>the six \<^verbatim>\<open>set...\<close> calls of \<^verbatim>\<open>clearAndReset\<close>\<close>
  "clearAndReset_sets app =
     app\<lparr>session := (session app)\<lparr>url := [], isValidUrl := False, detectedPlatform := None,
                                   isProcessing := False, mediaContent := None, error := None\<rparr>\<rparr>"

definition useEffect :: "(string \<Rightarrow> 'e + 'u) \<Rightarrow> SessionState \<Rightarrow> App \<Rightarrow> App" where
  "useEffect URL_new render app =
     (if trim (url render) \<noteq> [] then
        let valid = validateUrl URL_new (url render);
            app1 = app\<lparr>session := (session app)\<lparr>isValidUrl := valid\<rparr>\<rparr>
        in if valid then
             let platform = detectPlatform (url render);
                 app2 = app1\<lparr>session := (session app1)\<lparr>detectedPlatform := Some platform\<rparr>\<rparr>
             in if supported platform then processUrl render (url render) app2
                else app2\<lparr>session := (session app2)
                  \<lparr>error := Some ''This platform is not supported yet. We support Instagram, Facebook, X (Twitter), and Threads.''\<rparr>\<rparr>
           else app1\<lparr>session := (session app1)\<lparr>detectedPlatform := None, mediaContent := None, error := None\<rparr>\<rparr>
      else app\<lparr>session := (session app)\<lparr>isValidUrl := False, detectedPlatform := None, mediaContent := None,
                                          error := None, isProcessing := False\<rparr>\<rparr>)"

section \<open>Events\<close>

text \<open>
  The component runs on one thread, one event at a time. An event is a change of the input
  field, a click on a reset button, or the timer of one awaited \<^verbatim>\<open>fetchMediaContent\<close>
  call firing. After an event that changed \<^verbatim>\<open>url\<close> the component renders with the new state
  and the effect of that render runs, as its dependency list \<^verbatim>\<open>[url]\<close> says; setting
  \<^verbatim>\<open>url\<close> to the value it has changes nothing and runs no effect.
\<close>

definition mount :: "(string \<Rightarrow> 'e + 'u) \<Rightarrow> App" where
  \<comment> \<open>the first render and its effect\<close>
  "mount URL_new = useEffect URL_new defaults \<lparr>session = defaults, inflight = []\<rparr>"

definition onChange :: "(string \<Rightarrow> 'e + 'u) \<Rightarrow> string \<Rightarrow> App \<Rightarrow> App" where
  \<comment> \<open>\<^verbatim>\<open>onChange={(e) => setUrl(e.target.value)}\<close>\<close>
  "onChange URL_new v app =
     (if v = url (session app) then app
      else let app1 = app\<lparr>session := (session app)\<lparr>url := v\<rparr>\<rparr>
           in useEffect URL_new (session app1) app1)"

definition clearAndReset :: "(string \<Rightarrow> 'e + 'u) \<Rightarrow> App \<Rightarrow> App" where
  "clearAndReset URL_new app =
     (let app1 = clearAndReset_sets app
      in if url (session app) = [] then app1 else useEffect URL_new (session app1) app1)"

definition settle :: "nat \<Rightarrow> Random \<Rightarrow> App \<Rightarrow> App" where
  \<comment> \<open>the timer of the awaited call number \<open>i\<close> fires, with the draws \<open>rnd\<close>\<close>
  "settle i rnd app =
     (if i < length (inflight app) then
        let call = inflight app ! i;
            app1 = app\<lparr>inflight := take i (inflight app) @ drop (Suc i) (inflight app)\<rparr>
        in processUrl_settled (fetchMediaContent (fst call) (snd call) rnd) app1
      else app)"

datatype event = Change string | Reset | Settle nat Random

fun step :: "(string \<Rightarrow> 'e + 'u) \<Rightarrow> App \<Rightarrow> event \<Rightarrow> App" where
  "step URL_new app (Change v) = onChange URL_new v app"
| "step URL_new app Reset = clearAndReset URL_new app"
| "step URL_new app (Settle i rnd) = settle i rnd app"

definition run :: "(string \<Rightarrow> 'e + 'u) \<Rightarrow> event list \<Rightarrow> App" where
  \<comment> \<open>the component after the events of a history, from its mount\<close>
  "run URL_new evs = foldl (step URL_new) (mount URL_new) evs"

text \<open>The states of the session that the specification names, as conditions on the state variables.\<close>

definition Pending :: "SessionState \<Rightarrow> bool" where
  "Pending s = (isProcessing s \<and> mediaContent s = None \<and> error s = None)"

definition Ready :: "MediaContent \<Rightarrow> SessionState \<Rightarrow> bool" where
  "Ready content s = (\<not> isProcessing s \<and> mediaContent s = Some content \<and> error s = None)"

definition Failed :: "SessionState \<Rightarrow> bool" where
  "Failed s = (\<not> isProcessing s \<and> mediaContent s = None \<and>
               error s = Some ''Failed to process the URL. Please check the link and try again.'')"

definition ValidUnsupported :: "SessionState \<Rightarrow> bool" where
  "ValidUnsupported s = (isValidUrl s \<and> detectedPlatform s = Some platforms_default \<and>
     error s = Some ''This platform is not supported yet. We support Instagram, Facebook, X (Twitter), and Threads.'')"

section \<open>Histories that keep result and error apart\<close>

text \<open>
  A timer firing and a reset are \<open>admitted\<close> in every state. A change of the input is
  admitted unless it starts a fetch while another fetch is awaited, or changes the input to a
  valid link of an unsupported platform while a fetch is awaited or a result is present. A
  history is \<open>orderly\<close> from a state when each of its events is admitted in the state it
  arrives in. \<open>exclusive\<close> is the condition that such histories keep: at most one fetch is
  awaited, result and error are both absent while it is, and not both present otherwise.
  \<open>timer\<close> tells the timer events from the others.
\<close>

definition valid_unsupported :: "(string \<Rightarrow> 'e + 'u) \<Rightarrow> string \<Rightarrow> bool" where
  "valid_unsupported URL_new v =
     (trim v \<noteq> [] \<and> validateUrl URL_new v \<and> \<not> supported (detectPlatform v))"

fun admitted :: "(string \<Rightarrow> 'e + 'u) \<Rightarrow> App \<Rightarrow> event \<Rightarrow> bool" where
  "admitted URL_new app (Settle i rnd) = True"
| "admitted URL_new app Reset = True"
| "admitted URL_new app (Change v) =
     ((inflight (onChange URL_new v app) = inflight app \<or> inflight app = []) \<and>
      (v = url (session app) \<or> \<not> valid_unsupported URL_new v \<or>
       (inflight app = [] \<and> mediaContent (session app) = None)))"

fun orderly :: "(string \<Rightarrow> 'e + 'u) \<Rightarrow> App \<Rightarrow> event list \<Rightarrow> bool" where
  "orderly URL_new app [] = True"
| "orderly URL_new app (e # es) = (admitted URL_new app e \<and> orderly URL_new (step URL_new app e) es)"

definition exclusive :: "App \<Rightarrow> bool" where
  "exclusive app =
     (case inflight app of
        [] \<Rightarrow> mediaContent (session app) = None \<or> error (session app) = None
      | [c] \<Rightarrow> mediaContent (session app) = None \<and> error (session app) = None
      | _ \<Rightarrow> False)"

fun timer :: "event \<Rightarrow> bool" where
  "timer (Settle i rnd) = True"
| "timer (Change v) = False"
| "timer Reset = False"

section \<open>A URL constructor to run the model with\<close>

text \<open>
  Where the model is evaluated on a concrete history, \<open>URL_new\<close> is \<open>scheme_URL\<close>: it
  constructs a URL from exactly the strings that begin with a scheme, an ASCII letter followed
  by letters, digits, \<open>+\<close>, \<open>-\<close> or \<open>.\<close> and then a colon, and throws for every other
  string. It looks at nothing after the colon; the constructor of the platform also checks the
  host and the port of what follows and strips white space around the input. On the strings
  evaluated in this theory the two agree.
\<close>

definition is_ascii_alpha :: "char \<Rightarrow> bool" where
  "is_ascii_alpha c = (let n = of_char c :: nat in (65 \<le> n \<and> n \<le> 90) \<or> (97 \<le> n \<and> n \<le> 122))"

definition is_scheme_char :: "char \<Rightarrow> bool" where
  "is_scheme_char c =
     (let n = of_char c :: nat
      in is_ascii_alpha c \<or> (48 \<le> n \<and> n \<le> 57) \<or> c = CHR ''+'' \<or> c = CHR ''-'' \<or> c = CHR ''.'')"

definition scheme_URL :: "string \<Rightarrow> string + string" where
  "scheme_URL s =
     (case s of
        [] \<Rightarrow> Inl ''Invalid URL''
      | c # cs \<Rightarrow>
          if is_ascii_alpha c \<and> take 1 (dropWhile is_scheme_char cs) = '':'' then Inr s
          else Inl ''Invalid URL'')"

section \<open>The classifier in the words of the specification\<close>

text \<open>
  \<open>classify\<close> follows the specification: the text is lower-cased, the rules are tried in
  the listed order, a rule matches when one of its host names occurs in the text, the first
  rule that matches gives the descriptor, and Unknown is the answer when none does.
\<close>

definition occurs_in :: "string \<Rightarrow> string \<Rightarrow> bool" where
  "occurs_in pat s = (\<exists>ps ss. s = ps @ pat @ ss)"

definition rules :: "(string list \<times> DetectedPlatform) list" where
  "rules =
     [([''instagram.com''], platforms_instagram),
      ([''twitter.com'', ''x.com''], platforms_twitter),
      ([''facebook.com'', ''fb.com''], platforms_facebook),
      ([''threads.net''], platforms_threads)]"

definition classify :: "string \<Rightarrow> DetectedPlatform" where
  "classify raw =
     (case find (\<lambda>rule. list_ex (\<lambda>pat. occurs_in pat (toLowerCase raw)) (fst rule)) rules of
        Some rule \<Rightarrow> snd rule
      | None \<Rightarrow> platforms_default)"

section \<open>Concrete draws and histories\<close>

text \<open>
  The draws below are doubles: one half is \<open>1 / 2 ^ 1\<close>, the double \<^verbatim>\<open>0.7\<close> is
  \<open>3152519739159347 / 2 ^ 52\<close>, the double \<^verbatim>\<open>0.6666666666666666\<close> is
  \<open>6004799503160661 / 2 ^ 53\<close>, and the draw that \<open>rolls_reject\<close> compares with the
  literal \<^verbatim>\<open>0.1\<close> is that literal itself.
\<close>

definition rolls_video :: Random where
  "rolls_video =
     \<lparr>random_success = \<lparr>mantissa = 1, scale = 1\<rparr>,
      random_isVideo = \<lparr>mantissa = 1, scale = 1\<rparr>,
      random_photo = \<lparr>mantissa = 1, scale = 2\<rparr>,
      random_file = \<lparr>mantissa = 3, scale = 2\<rparr>,
      random_minutes = \<lparr>mantissa = 6004799503160661, scale = 53\<rparr>,
      random_seconds = \<lparr>mantissa = 3152519739159347, scale = 52\<rparr>,
      random_resolution = \<lparr>mantissa = 1, scale = 1\<rparr>\<rparr>"

definition rolls_image :: Random where
  "rolls_image =
     \<lparr>random_success = \<lparr>mantissa = 1, scale = 1\<rparr>,
      random_isVideo = \<lparr>mantissa = 1, scale = 2\<rparr>,
      random_photo = \<lparr>mantissa = 0, scale = 0\<rparr>,
      random_file = \<lparr>mantissa = 0, scale = 0\<rparr>,
      random_minutes = \<lparr>mantissa = 0, scale = 0\<rparr>,
      random_seconds = \<lparr>mantissa = 0, scale = 0\<rparr>,
      random_resolution = \<lparr>mantissa = 0, scale = 0\<rparr>\<rparr>"

definition rolls_reject :: Random where
  "rolls_reject =
     \<lparr>random_success = literal_0_1,
      random_isVideo = \<lparr>mantissa = 0, scale = 0\<rparr>,
      random_photo = \<lparr>mantissa = 0, scale = 0\<rparr>,
      random_file = \<lparr>mantissa = 0, scale = 0\<rparr>,
      random_minutes = \<lparr>mantissa = 0, scale = 0\<rparr>,
      random_seconds = \<lparr>mantissa = 0, scale = 0\<rparr>,
      random_resolution = \<lparr>mantissa = 0, scale = 0\<rparr>\<rparr>"

definition pasted :: "event list" where
  \<comment> \<open>a link pasted into the empty field\<close>
  "pasted = [Change ''https://instagram.com/p/xyz'']"

definition typed :: "event list" where
  \<comment> \<open>a link typed to its last two characters: the second change starts a fetch\<close>
  "typed = [Change ''https://instagram.com/p/'', Change ''https://instagram.com/p/a'']"

definition two_fetches :: "event list" where
  \<comment> \<open>one more character while the first fetch is awaited: a second fetch starts\<close>
  "two_fetches = typed @ [Change ''https://instagram.com/p/ab'']"

definition newer_settled :: "event list" where
  \<comment> \<open>the second, newer fetch settles first\<close>
  "newer_settled = two_fetches @ [Settle 1 rolls_video]"

definition ready_then_unsupported :: "event list" where
  \<comment> \<open>a fetch succeeds, then the input changes to a link of a platform that is not supported\<close>
  "ready_then_unsupported = typed @ [Settle 0 rolls_video, Change ''https://tiktok.com/@user/video/1'']"

definition newer_rejected :: "event list" where
  \<comment> \<open>the newer fetch is rejected, then the older one resolves\<close>
  "newer_rejected = two_fetches @ [Settle 1 rolls_reject, Settle 0 rolls_image]"

definition awaited_then_unsupported :: "event list" where
  \<comment> \<open>while a fetch is awaited the input changes to a link of a platform that is not supported\<close>
  "awaited_then_unsupported = typed @ [Change ''https://tiktok.com/@user/video/1'']"

definition older_rejected :: "event list" where
  \<comment> \<open>the older of two fetches is rejected; the newer one, for the link in the field, is awaited\<close>
  "older_rejected = two_fetches @ [Settle 0 rolls_reject]"

definition older_resolved :: "event list" where
  \<comment> \<open>the older of two fetches resolves; the newer one, for the link in the field, is awaited\<close>
  "older_resolved = two_fetches @ [Settle 0 rolls_image]"

definition orderly_history :: "event list" where
  \<comment> \<open>a fetch is awaited, a reset, the fetch is rejected, a link is typed again and fetched\<close>
  "orderly_history =
     typed @ [Reset, Settle 0 rolls_reject, Change ''https://instagram.com/p/'',
              Change ''https://instagram.com/p/ab'', Settle 0 rolls_video]"

section \<open>Lemmas on the strings and the classifier\<close>

lemma includes_str_occurs: "includes_str s pat = occurs_in pat s"
proof (induction s)
  case Nil
  show ?case by (simp add: occurs_in_def)
next
  case (Cons c cs)
  have "occurs_in pat (c # cs) = (take (length pat) (c # cs) = pat \<or> occurs_in pat cs)"
  proof
    assume "occurs_in pat (c # cs)"
    then obtain ps ss where eq: "c # cs = ps @ pat @ ss" by (auto simp: occurs_in_def)
    show "take (length pat) (c # cs) = pat \<or> occurs_in pat cs"
    proof (cases ps)
      case Nil
      with eq show ?thesis by simp
    next
      case (Cons p ps')
      with eq have "cs = ps' @ pat @ ss" by simp
      then show ?thesis by (auto simp: occurs_in_def)
    qed
  next
    assume "take (length pat) (c # cs) = pat \<or> occurs_in pat cs"
    then show "occurs_in pat (c # cs)"
    proof
      assume "take (length pat) (c # cs) = pat"
      then have "c # cs = [] @ pat @ drop (length pat) (c # cs)"
        by (metis append_Nil append_take_drop_id)
      then show ?thesis unfolding occurs_in_def by blast
    next
      assume "occurs_in pat cs"
      then obtain ps ss where "cs = ps @ pat @ ss" by (auto simp: occurs_in_def)
      then have "c # cs = (c # ps) @ pat @ ss" by simp
      then show ?thesis unfolding occurs_in_def by blast
    qed
  qed
  with Cons show ?case by simp
qed

lemma detectPlatform_classify: "detectPlatform raw = classify raw"
  by (simp add: detectPlatform_def classify_def rules_def Let_def includes_str_occurs)

lemma detectPlatform_cases:
  "detectPlatform raw \<in> {platforms_instagram, platforms_twitter, platforms_facebook,
     platforms_threads, platforms_default}"
  by (simp add: detectPlatform_def Let_def)

lemma detectPlatform_unsupported:
  "(\<not> supported (detectPlatform raw)) = (detectPlatform raw = platforms_default)"
  by (simp add: detectPlatform_def Let_def platforms_instagram_def platforms_twitter_def
      platforms_facebook_def platforms_threads_def platforms_default_def)

lemma trim_Nil: "trim [] = []"
  by (simp add: trim_def)

lemma digit_char_0: "digit_char 0 = CHR ''0''"
  by (simp add: digit_char_def char_of_eq_iff)

lemma digits_of_one: "n < 10 \<Longrightarrow> digits_of n = [digit_char n]"
  by (simp add: digits_of.simps)

lemma digits_of_two:
  "10 \<le> n \<Longrightarrow> n < 100 \<Longrightarrow> digits_of n = [digit_char (n div 10), digit_char (n mod 10)]"
  by (subst digits_of.simps) (simp add: digits_of_one)

lemma padStart_seconds:
  assumes "n < 60"
  shows "padStart 2 (CHR ''0'') (toString n) = [digit_char (n div 10), digit_char (n mod 10)]"
proof (cases "n < 10")
  case True
  then show ?thesis by (simp add: padStart_def toString_def digits_of_one digit_char_0)
next
  case False
  with assms show ?thesis by (simp add: padStart_def toString_def digits_of_two)
qed

lemma bit_length_le: "p < 2 ^ j \<Longrightarrow> bit_length p \<le> j"
proof (induction p arbitrary: j rule: bit_length.induct)
  case (1 n)
  show ?case
  proof (cases "n = 0")
    case True
    then show ?thesis by (simp add: bit_length.simps)
  next
    case False
    with "1.prems" obtain i where j: "j = Suc i" by (cases j) auto
    with "1.prems" have "n div 2 < 2 ^ i" by auto
    with "1.IH" [OF False] have "bit_length (n div 2) \<le> i" .
    with False j show ?thesis by (subst bit_length.simps) simp
  qed
qed

lemma round53_exact: "bit_length p \<le> 53 \<Longrightarrow> round53 p = p"
  by (simp add: round53_def)

lemma round53_le:
  assumes "53 < bit_length p"
  shows "round53 p \<le> p + 2 ^ (bit_length p - 54)"
proof -
  define s where "s = bit_length p - 53"
  define q where "q = p div 2 ^ s"
  define rest where "rest = p mod 2 ^ s"
  define half :: nat where "half = 2 ^ (s - 1)"
  from assms have s: "0 < s" and s1: "s - 1 = bit_length p - 54" by (simp_all add: s_def)
  from s have two: "(2::nat) ^ s = 2 * half"
    by (cases s) (simp_all add: half_def)
  have p: "p = q * 2 ^ s + rest"
    unfolding q_def rest_def by (rule div_mult_mod_eq [symmetric])
  have r: "round53 p = (if half < rest \<or> (rest = half \<and> odd q) then q + 1 else q) * 2 ^ s"
    using assms by (simp add: round53_def Let_def s_def q_def rest_def half_def)
  have "round53 p \<le> p + half"
  proof (cases "half < rest \<or> (rest = half \<and> odd q)")
    case True
    then have "half \<le> rest" by auto
    with r True p two show ?thesis by (simp add: algebra_simps)
  next
    case False
    with r p show ?thesis by simp
  qed
  then show ?thesis unfolding half_def s1 .
qed

text \<open>
  For an integer \<open>n\<close> with \<open>2 ^ (k - 1) < n \<le> 2 ^ k\<close>, as 3, 60 and 2000 are, the
  rounded product of a draw and \<open>n\<close> stays below \<open>n\<close>: the largest draw is
  \<open>1 - 2 ^ -53\<close>, its product is \<open>n * 2 ^ -53\<close> below \<open>n\<close>, and rounding adds at most
  half a unit of the last place, which is less.
\<close>

lemma floor_times_less:
  assumes r: "is_random r" and lo: "2 ^ (k - 1) < n" and hi: "n \<le> 2 ^ k" and k: "0 < k"
  shows "floor_times r n < n"
proof -
  define m where "m = mantissa r"
  define E where "E = scale r"
  define F where "F = min E 53"
  define p where "p = m * n"
  from r have "m < 2 ^ E" "m < 2 ^ 53" by (simp_all add: is_random_def m_def E_def)
  then have mF: "m < 2 ^ F" by (simp add: F_def min_def)
  then have "(m + 1) * n \<le> 2 ^ F * n" by (intro mult_le_mono1) simp
  then have pn: "p + n \<le> n * 2 ^ F" by (simp add: p_def algebra_simps)
  from lo have n: "0 < n" by (cases n) auto
  have "round53 p < n * 2 ^ F"
  proof (cases "bit_length p \<le> 53")
    case True
    with pn n show ?thesis by (simp add: round53_exact)
  next
    case False
    from pn n have "p < n * 2 ^ F" by simp
    also have "\<dots> \<le> 2 ^ k * 2 ^ F" using hi by simp
    finally have "p < 2 ^ (k + F)" by (simp add: power_add)
    then have "bit_length p \<le> k + F" by (rule bit_length_le)
    then have "bit_length p - 54 \<le> k - 1" using k by (simp add: F_def)
    then have "(2::nat) ^ (bit_length p - 54) \<le> 2 ^ (k - 1)" by simp
    from this lo have "2 ^ (bit_length p - 54) < n" by (rule le_less_trans)
    moreover from False have "round53 p \<le> p + 2 ^ (bit_length p - 54)"
      by (intro round53_le) simp
    ultimately show ?thesis using pn by simp
  qed
  also have "n * 2 ^ F \<le> n * 2 ^ E" by (simp add: F_def)
  finally have "round53 p < n * 2 ^ E" .
  then have "round53 p div 2 ^ E < n" by (simp add: less_mult_imp_div_less)
  then show ?thesis by (simp add: floor_times_def p_def m_def E_def)
qed

section \<open>Lemmas on the handlers\<close>

lemma session_settle:
  assumes "i < length (inflight app)"
  shows "session (settle i rnd app) =
    (case fetchMediaContent (fst (inflight app ! i)) (snd (inflight app ! i)) rnd of
       Inr content \<Rightarrow> (session app)\<lparr>mediaContent := Some content, isProcessing := False\<rparr>
     | Inl err \<Rightarrow> (session app)
         \<lparr>error := Some ''Failed to process the URL. Please check the link and try again.'',
          isProcessing := False\<rparr>)"
  using assms by (simp add: settle_def processUrl_settled_def Let_def split: sum.split)

lemma inflight_settle:
  "inflight (settle i rnd app) =
     (if i < length (inflight app) then take i (inflight app) @ drop (Suc i) (inflight app)
      else inflight app)"
  by (simp add: settle_def processUrl_settled_def Let_def split: sum.split)

lemma useEffect_empty:
  "url render = [] \<Longrightarrow> useEffect URL_new render app =
     app\<lparr>session := (session app)\<lparr>isValidUrl := False, detectedPlatform := None, mediaContent := None,
                                   error := None, isProcessing := False\<rparr>\<rparr>"
  by (simp add: useEffect_def trim_Nil)

lemma useEffect_unsupported:
  assumes "trim (url render) \<noteq> []" "validateUrl URL_new (url render)"
    "\<not> supported (detectPlatform (url render))"
  shows "useEffect URL_new render app =
     app\<lparr>session := (session app)\<lparr>isValidUrl := True, detectedPlatform := Some platforms_default,
       error := Some ''This platform is not supported yet. We support Instagram, Facebook, X (Twitter), and Threads.''\<rparr>\<rparr>"
proof -
  from assms(3) have "detectPlatform (url render) = platforms_default"
    by (simp add: detectPlatform_unsupported)
  with assms show ?thesis by (simp add: useEffect_def Let_def)
qed

text \<open>
  For a link that is valid and supported the effect calls \<open>processUrl\<close>, which reads the
  state of the render: the validity and the platform that the state had before this effect set
  them. It starts a fetch when those were valid and supported, and returns at once otherwise.
\<close>

lemma useEffect_supported:
  assumes "trim (url render) \<noteq> []" "validateUrl URL_new (url render)"
    "supported (detectPlatform (url render))"
  shows "useEffect URL_new render app =
     processUrl render (url render)
       (app\<lparr>session := (session app)\<lparr>isValidUrl := True,
                                      detectedPlatform := Some (detectPlatform (url render))\<rparr>\<rparr>)"
  using assms by (simp add: useEffect_def Let_def)

lemma processUrl_Pending:
  assumes "isValidUrl render" "detectedPlatform render = Some platform" "supported platform"
  shows "Pending (session (processUrl render inputUrl app))
     \<and> inflight (processUrl render inputUrl app) = inflight app @ [(inputUrl, platform)]"
  using assms by (simp add: processUrl_def Pending_def)

lemma processUrl_returns:
  assumes "\<not> isValidUrl render \<or> detectedPlatform render = None
     \<or> (\<exists>platform. detectedPlatform render = Some platform \<and> \<not> supported platform)"
  shows "processUrl render inputUrl app = app"
  using assms by (auto simp: processUrl_def split: option.split)

lemma inflight_useEffect:
  "set (inflight (useEffect URL_new render app)) \<subseteq>
     set (inflight app) \<union> {c. fst c = url render \<and> supported (detectPlatform (url render))}"
  by (auto simp: useEffect_def processUrl_def Let_def split: option.splits if_splits)

lemma inflight_step:
  assumes "\<forall>c \<in> set (inflight app). supported (detectPlatform (fst c))"
  shows "\<forall>c \<in> set (inflight (step URL_new app e)). supported (detectPlatform (fst c))"
proof (cases e)
  case (Change v)
  show ?thesis
  proof (cases "v = url (session app)")
    case True
    with Change assms show ?thesis by (simp add: onChange_def)
  next
    case False
    with Change have "inflight (step URL_new app e) =
        inflight (useEffect URL_new ((session app)\<lparr>url := v\<rparr>) (app\<lparr>session := (session app)\<lparr>url := v\<rparr>\<rparr>))"
      by (simp add: onChange_def Let_def)
    with inflight_useEffect [of URL_new "(session app)\<lparr>url := v\<rparr>" "app\<lparr>session := (session app)\<lparr>url := v\<rparr>\<rparr>"]
      assms show ?thesis by auto
  qed
next
  case Reset
  have "inflight (clearAndReset URL_new app) = inflight app"
    by (simp add: clearAndReset_def clearAndReset_sets_def Let_def useEffect_empty)
  with Reset assms show ?thesis by simp
next
  case (Settle i rnd)
  have "set (inflight (settle i rnd app)) \<subseteq> set (inflight app)"
    using set_take_subset [of i "inflight app"] set_drop_subset [of "Suc i" "inflight app"]
    by (auto simp: inflight_settle)
  with Settle assms show ?thesis by auto
qed

lemma inflight_mount: "inflight (mount URL_new) = []"
  by (simp add: mount_def defaults_def useEffect_empty)

lemma session_mount: "session (mount URL_new) = defaults"
  by (simp add: mount_def defaults_def useEffect_empty)

lemma run_snoc: "run URL_new (evs @ [e]) = step URL_new (run URL_new evs) e"
  by (simp add: run_def)

text \<open>No fetch is ever awaited for a link that the classifier does not support.\<close>

lemma inflight_run:
  "\<forall>c \<in> set (inflight (run URL_new evs)). supported (detectPlatform (fst c))"
proof (induction evs rule: rev_induct)
  case Nil
  show ?case by (simp add: run_def inflight_mount)
next
  case (snoc e evs)
  then show ?case unfolding run_snoc by (rule inflight_step)
qed

lemma fetch_rolls_reject:
  "fetchMediaContent inputUrl platform rolls_reject = Inl ''Failed to extract media''"
  by (simp add: fetchMediaContent_def rolls_reject_def greater_def)

lemma fetch_rolls_video: "\<exists>content. fetchMediaContent inputUrl platform rolls_video = Inr content"
  by (simp add: fetchMediaContent_def rolls_video_def greater_def literal_0_1_def Let_def)

lemma exclusive_settle:
  assumes "exclusive app"
  shows "exclusive (settle i rnd app)"
proof (cases "inflight app")
  case Nil
  with assms show ?thesis by (simp add: settle_def)
next
  case (Cons c cs)
  with assms have cs: "cs = []" and none: "mediaContent (session app) = None" "error (session app) = None"
    by (auto simp: exclusive_def split: list.splits)
  show ?thesis
  proof (cases i)
    case 0
    with Cons cs none show ?thesis
      by (simp add: settle_def processUrl_settled_def exclusive_def Let_def split: sum.split)
  next
    case (Suc k)
    with Cons cs assms show ?thesis by (simp add: settle_def)
  qed
qed

lemma exclusive_clearAndReset:
  assumes "exclusive app"
  shows "exclusive (clearAndReset URL_new app)"
  using assms
  by (auto simp: clearAndReset_def clearAndReset_sets_def Let_def useEffect_empty exclusive_def
      split: list.splits)

lemma exclusive_onChange:
  assumes "exclusive app" "admitted URL_new app (Change v)"
  shows "exclusive (onChange URL_new v app)"
proof (cases "v = url (session app)")
  case True
  with assms show ?thesis by (simp add: onChange_def)
next
  case False
  show ?thesis
  proof (cases "inflight app")
    case Nil
    with False assms show ?thesis
      by (auto simp: onChange_def useEffect_def processUrl_def exclusive_def valid_unsupported_def
          Let_def split: option.splits)
  next
    case (Cons c cs)
    with assms(1) have cs: "cs = []" and none: "mediaContent (session app) = None" "error (session app) = None"
      by (auto simp: exclusive_def split: list.splits)
    from assms(2) Cons False have same: "inflight (onChange URL_new v app) = inflight app"
      and ok: "\<not> valid_unsupported URL_new v" by auto
    from same Cons cs none ok False show ?thesis
      by (auto simp: onChange_def useEffect_def processUrl_def exclusive_def valid_unsupported_def
          Let_def split: option.splits if_splits)
  qed
qed

lemma exclusive_step:
  assumes "exclusive app" "admitted URL_new app e"
  shows "exclusive (step URL_new app e)"
proof (cases e)
  case (Change v)
  with assms show ?thesis by (simp add: exclusive_onChange)
next
  case Reset
  with assms show ?thesis by (simp add: exclusive_clearAndReset)
next
  case (Settle i rnd)
  with assms show ?thesis by (simp add: exclusive_settle)
qed

lemma exclusive_foldl:
  "exclusive app \<Longrightarrow> orderly URL_new app evs \<Longrightarrow> exclusive (foldl (step URL_new) app evs)"
  by (induction evs arbitrary: app) (simp_all add: exclusive_step)

lemma exclusive_mount: "exclusive (mount URL_new)"
  by (simp add: mount_def defaults_def useEffect_def trim_def exclusive_def)

text \<open>
  No event is left out without need: from a state that is \<open>exclusive\<close>, an event that is
  not admitted leads to result and error both present, at once or after the timers of the
  awaited fetches have fired with suitable outcomes.
\<close>

lemma not_admitted_breaks:
  assumes ex: "exclusive app" and na: "\<not> admitted URL_new app e"
  shows "\<exists>evs. list_all timer evs
    \<and> mediaContent (session (foldl (step URL_new) (step URL_new app e) evs)) \<noteq> None
    \<and> error (session (foldl (step URL_new) (step URL_new app e) evs)) \<noteq> None"
proof -
  from na obtain v where e: "e = Change v" by (cases e) auto
  define app' where "app' = onChange URL_new v app"
  from na e consider
    (starts) "inflight app' \<noteq> inflight app" "inflight app \<noteq> []"
    | (unsupported) "v \<noteq> url (session app)" "valid_unsupported URL_new v"
        "inflight app \<noteq> [] \<or> mediaContent (session app) \<noteq> None"
    by (auto simp: app'_def)
  then show ?thesis
  proof cases
    case starts
    from ex starts(2) obtain c where c: "inflight app = [c]"
      by (auto simp: exclusive_def split: list.splits)
    from starts(1) c obtain d where d: "inflight app' = [c, d]"
      and none: "error (session app') = None"
      by (auto simp: app'_def onChange_def useEffect_def processUrl_def Let_def
          split: option.splits if_splits)
    obtain cc where cc: "fetchMediaContent (fst c) (snd c) rolls_video = Inr cc"
      using fetch_rolls_video by blast
    let ?evs = "[Settle 1 rolls_reject, Settle 0 rolls_video]"
    have "mediaContent (session (foldl (step URL_new) app' ?evs)) \<noteq> None
      \<and> error (session (foldl (step URL_new) app' ?evs)) \<noteq> None"
      using d cc by (simp add: settle_def processUrl_settled_def Let_def fetch_rolls_reject)
    moreover have "list_all timer ?evs" by simp
    ultimately show ?thesis unfolding e step.simps app'_def [symmetric] by blast
  next
    case unsupported
    from unsupported(1,2) have app': "app' =
       app\<lparr>session := (session app)\<lparr>url := v, isValidUrl := True, detectedPlatform := Some platforms_default,
         error := Some ''This platform is not supported yet. We support Instagram, Facebook, X (Twitter), and Threads.''\<rparr>\<rparr>"
      by (simp add: app'_def onChange_def Let_def useEffect_unsupported valid_unsupported_def)
    show ?thesis
    proof (cases "mediaContent (session app) = None")
      case False
      with app' have "mediaContent (session (foldl (step URL_new) app' [])) \<noteq> None
        \<and> error (session (foldl (step URL_new) app' [])) \<noteq> None" by simp
      moreover have "list_all timer []" by simp
      ultimately show ?thesis unfolding e step.simps app'_def [symmetric] by blast
    next
      case True
      with unsupported(3) ex obtain c where c: "inflight app = [c]"
        by (auto simp: exclusive_def split: list.splits)
      obtain cc where cc: "fetchMediaContent (fst c) (snd c) rolls_video = Inr cc"
        using fetch_rolls_video by blast
      let ?evs = "[Settle 0 rolls_video]"
      have "mediaContent (session (foldl (step URL_new) app' ?evs)) \<noteq> None
        \<and> error (session (foldl (step URL_new) app' ?evs)) \<noteq> None"
        using c cc app' by (simp add: settle_def processUrl_settled_def Let_def)
      moreover have "list_all timer ?evs" by simp
      ultimately show ?thesis unfolding e step.simps app'_def [symmetric] by blast
    qed
  qed
qed

text \<open>
  The branch of the effect for a valid link of an unsupported platform sets the error and
  leaves the result: after a fetch has succeeded, a change to such a link leaves both present.
\<close>

lemma unsupported_branch_keeps_result:
  "map_option downloadUrl (mediaContent (session (run scheme_URL ready_then_unsupported)))
     = Some ''https://instagram.com/p/a''
   \<and> error (session (run scheme_URL ready_then_unsupported))
     = Some ''This platform is not supported yet. We support Instagram, Facebook, X (Twitter), and Threads.''
   \<and> url (session (run scheme_URL ready_then_unsupported)) = ''https://tiktok.com/@user/video/1''"
  by code_simp

section \<open>The claims\<close>

subsection \<open>C1: a fetch that settles after a newer one\<close>

text \<open>
  C1 says that when a fetch A is started, the input changes so that a newer fetch B is started
  before A settles, then the settling of A never changes the session. The history
  \<open>newer_settled\<close> is such a one: A is the fetch for \<^verbatim>\<open>.../p/a\<close>, B the fetch for
  \<^verbatim>\<open>.../p/ab\<close>, and B has settled. When A settles after it, the result of B is replaced
  by the result of A.
\<close>

theorem stale_settle_changes_session:
  "inflight (run scheme_URL newer_settled) = [(''https://instagram.com/p/a'', platforms_instagram)]
   \<and> url (session (run scheme_URL newer_settled)) = ''https://instagram.com/p/ab''
   \<and> map_option downloadUrl (mediaContent (session (run scheme_URL newer_settled)))
       = Some ''https://instagram.com/p/ab''
   \<and> map_option downloadUrl (mediaContent (session (run scheme_URL (newer_settled @ [Settle 0 rolls_image]))))
       = Some ''https://instagram.com/p/a''
   \<and> session (run scheme_URL (newer_settled @ [Settle 0 rolls_image]))
       \<noteq> session (run scheme_URL newer_settled)"
proof -
  have a: "inflight (run scheme_URL newer_settled) = [(''https://instagram.com/p/a'', platforms_instagram)]"
    by code_simp
  have b: "url (session (run scheme_URL newer_settled)) = ''https://instagram.com/p/ab''"
    by code_simp
  have c: "map_option downloadUrl (mediaContent (session (run scheme_URL newer_settled)))
       = Some ''https://instagram.com/p/ab''"
    by code_simp
  have d: "map_option downloadUrl (mediaContent (session (run scheme_URL (newer_settled @ [Settle 0 rolls_image]))))
       = Some ''https://instagram.com/p/a''"
    by code_simp
  from c d have "session (run scheme_URL (newer_settled @ [Settle 0 rolls_image]))
       \<noteq> session (run scheme_URL newer_settled)"
    by auto
  with a b c d show ?thesis by blast
qed

text \<open>
  C1, as the code has it: when the awaited call \<open>i\<close> is older than the awaited call \<open>j\<close>
  and settles after it, its outcome is applied to the state that \<open>j\<close> left. A success
  stores the content of \<open>i\<close> as the result, a failure stores the failure message as the
  error, both clear the pending flag, and every other field keeps the value it had.
\<close>

theorem settle_of_older_fetch_applies:
  assumes "i < j" "j < length (inflight app)"
  shows "session (settle i rndA (settle j rndB app)) =
    (case fetchMediaContent (fst (inflight app ! i)) (snd (inflight app ! i)) rndA of
       Inr content \<Rightarrow> (session (settle j rndB app))\<lparr>mediaContent := Some content, isProcessing := False\<rparr>
     | Inl err \<Rightarrow> (session (settle j rndB app))
         \<lparr>error := Some ''Failed to process the URL. Please check the link and try again.'',
          isProcessing := False\<rparr>)"
proof -
  from assms have len: "i < length (inflight (settle j rndB app))"
    by (simp add: inflight_settle)
  from assms have "inflight (settle j rndB app) ! i = inflight app ! i"
    by (simp add: inflight_settle nth_append)
  with session_settle [OF len, of rndA] show ?thesis by simp
qed

theorem settle_of_older_fetch_applies_witness:
  "(0::nat) < 1 \<and> 1 < length (inflight (run scheme_URL two_fetches))
   \<and> mediaContent (session (settle 0 rolls_image (settle 1 rolls_video (run scheme_URL two_fetches))))
     = Some \<lparr>type = image,
        thumbnail = ''https://images.pexels.com/photos/1000/pexels-photo-1000.jpeg?auto=compress&cs=tinysrgb&w=400'',
        downloadUrl = ''https://instagram.com/p/a'', title = Some ''Instagram Image'',
        duration = None, resolution = Some ''720p''\<rparr>"
proof -
  have l: "1 < length (inflight (run scheme_URL two_fetches))"
    by code_simp
  have f: "fetchMediaContent (fst (inflight (run scheme_URL two_fetches) ! 0))
      (snd (inflight (run scheme_URL two_fetches) ! 0)) rolls_image =
     Inr \<lparr>type = image,
        thumbnail = ''https://images.pexels.com/photos/1000/pexels-photo-1000.jpeg?auto=compress&cs=tinysrgb&w=400'',
        downloadUrl = ''https://instagram.com/p/a'', title = Some ''Instagram Image'',
        duration = None, resolution = Some ''720p''\<rparr>"
    by code_simp
  from settle_of_older_fetch_applies [OF zero_less_one l, of rolls_image rolls_video] f l
  show ?thesis by simp
qed

subsection \<open>C2: a change to a supported link\<close>

text \<open>
  C2 says that every change of the input to a non-empty valid link of a supported platform
  clears result and error, sets the pending flag and starts a fetch. On the history
  \<open>pasted\<close>, a supported link pasted into the empty field of the mounted component, the
  link is valid and classified as Instagram, and afterwards the pending flag is not set and no
  fetch is awaited: \<open>processUrl\<close> read the validity and the platform of the render, which
  are those of the empty field.
\<close>

theorem pasted_link_starts_no_fetch:
  "trim ''https://instagram.com/p/xyz'' \<noteq> []
   \<and> validateUrl scheme_URL ''https://instagram.com/p/xyz''
   \<and> detectPlatform ''https://instagram.com/p/xyz'' = platforms_instagram
   \<and> supported platforms_instagram
   \<and> run scheme_URL pasted =
     \<lparr>session = \<lparr>url = ''https://instagram.com/p/xyz'', isValidUrl = True,
                  detectedPlatform = Some platforms_instagram, isProcessing = False,
                  mediaContent = None, error = None\<rparr>,
      inflight = []\<rparr>"
  by code_simp

subsection \<open>C3: result and error\<close>

text \<open>
  C3 says that in no reachable state result and error are both present. On the history
  \<open>newer_rejected\<close> two fetches are awaited, the newer one is rejected and the older one
  then resolves: the error of the newer fetch and the result of the older one are both
  present. On \<open>awaited_then_unsupported\<close> the input changes to a link of an unsupported
  platform while a fetch is awaited, and the fetch then resolves: the advisory error and the
  result are both present.
\<close>

theorem stale_settle_result_and_error:
  "map_option downloadUrl (mediaContent (session (run scheme_URL newer_rejected)))
     = Some ''https://instagram.com/p/a''
   \<and> error (session (run scheme_URL newer_rejected))
     = Some ''Failed to process the URL. Please check the link and try again.''
   \<and> url (session (run scheme_URL newer_rejected)) = ''https://instagram.com/p/ab''
   \<and> map_option downloadUrl
        (mediaContent (session (run scheme_URL (awaited_then_unsupported @ [Settle 0 rolls_video]))))
     = Some ''https://instagram.com/p/a''
   \<and> error (session (run scheme_URL (awaited_then_unsupported @ [Settle 0 rolls_video])))
     = Some ''This platform is not supported yet. We support Instagram, Facebook, X (Twitter), and Threads.''"
  by code_simp

text \<open>
  C3, as the code has it: in every state reached from the mount by an orderly history, result
  and error are not both present. An orderly history is one in which no change of the input
  starts a fetch while another fetch is awaited, and the input is not changed to a valid link
  of an unsupported platform while a fetch is awaited or a result is present; resets, timers
  and every other change of the input may come at any moment.
\<close>

theorem result_or_error_in_orderly_histories:
  assumes "orderly URL_new (mount URL_new) evs"
  shows "mediaContent (session (run URL_new evs)) = None \<or> error (session (run URL_new evs)) = None"
proof -
  have "exclusive (run URL_new evs)"
    unfolding run_def using exclusive_mount assms by (rule exclusive_foldl)
  then show ?thesis by (auto simp: exclusive_def split: list.splits)
qed

theorem result_or_error_in_orderly_histories_witness:
  "orderly scheme_URL (mount scheme_URL) orderly_history
   \<and> map_option downloadUrl (mediaContent (session (run scheme_URL orderly_history)))
       = Some ''https://instagram.com/p/ab''
   \<and> error (session (run scheme_URL orderly_history)) = None"
proof -
  have o: "orderly scheme_URL (mount scheme_URL) orderly_history"
    by code_simp
  have m: "map_option downloadUrl (mediaContent (session (run scheme_URL orderly_history)))
       = Some ''https://instagram.com/p/ab''"
    by code_simp
  from m have "mediaContent (session (run scheme_URL orderly_history)) \<noteq> None" by auto
  with result_or_error_in_orderly_histories [OF o] o m show ?thesis by simp
qed

subsection \<open>C4: the classifier\<close>

text \<open>
  C4: \<open>detectPlatform\<close> lower-cases the text and answers with the first rule that matches,
  in the order instagram.com, then twitter.com or x.com, then facebook.com or fb.com, then
  threads.net, and with the Unknown descriptor, which is not supported, when none matches. It
  agrees with \<open>classify\<close>, the table of rules read in order; it always returns one of the
  five descriptors; a text with both instagram.com and x.com is Instagram.
\<close>

theorem detectPlatform_first_match:
  "detectPlatform raw = classify raw
   \<and> detectPlatform raw \<in> {platforms_instagram, platforms_twitter, platforms_facebook,
        platforms_threads, platforms_default}
   \<and> (occurs_in ''instagram.com'' (toLowerCase raw) \<longrightarrow> detectPlatform raw = platforms_instagram)
   \<and> (occurs_in ''instagram.com'' (toLowerCase raw) \<and> occurs_in ''x.com'' (toLowerCase raw) \<longrightarrow>
        detectPlatform raw = platforms_instagram)
   \<and> ((\<forall>pat \<in> set (concat (map fst rules)). \<not> occurs_in pat (toLowerCase raw)) \<longrightarrow>
        detectPlatform raw = platforms_default)
   \<and> supported platforms_default = False"
proof (intro conjI)
  show "detectPlatform raw = classify raw"
    by (rule detectPlatform_classify)
  show "detectPlatform raw \<in> {platforms_instagram, platforms_twitter, platforms_facebook,
        platforms_threads, platforms_default}"
    by (rule detectPlatform_cases)
  show "occurs_in ''instagram.com'' (toLowerCase raw) \<longrightarrow> detectPlatform raw = platforms_instagram"
    by (simp add: detectPlatform_def Let_def includes_str_occurs)
  then show "occurs_in ''instagram.com'' (toLowerCase raw) \<and> occurs_in ''x.com'' (toLowerCase raw) \<longrightarrow>
        detectPlatform raw = platforms_instagram"
    by simp
  show "(\<forall>pat \<in> set (concat (map fst rules)). \<not> occurs_in pat (toLowerCase raw)) \<longrightarrow>
        detectPlatform raw = platforms_default"
    by (simp add: detectPlatform_def Let_def includes_str_occurs rules_def)
  show "supported platforms_default = False"
    by (simp add: platforms_default_def)
qed

theorem detectPlatform_first_match_witness:
  "occurs_in ''instagram.com'' (toLowerCase ''https://Instagram.com/x.com'')
   \<and> occurs_in ''x.com'' (toLowerCase ''https://Instagram.com/x.com'')
   \<and> detectPlatform ''https://Instagram.com/x.com'' = platforms_instagram
   \<and> list_all (\<lambda>pat. \<not> occurs_in pat (toLowerCase ''https://tiktok.com/@user/video/1''))
        (concat (map fst rules))
   \<and> detectPlatform ''https://tiktok.com/@user/video/1'' = platforms_default"
proof -
  have "includes_str (toLowerCase ''https://Instagram.com/x.com'') ''instagram.com''"
    by code_simp
  then have a: "occurs_in ''instagram.com'' (toLowerCase ''https://Instagram.com/x.com'')"
    by (simp only: includes_str_occurs)
  have "includes_str (toLowerCase ''https://Instagram.com/x.com'') ''x.com''"
    by code_simp
  then have b: "occurs_in ''x.com'' (toLowerCase ''https://Instagram.com/x.com'')"
    by (simp only: includes_str_occurs)
  have "list_all (\<lambda>pat. \<not> includes_str (toLowerCase ''https://tiktok.com/@user/video/1'') pat)
          (concat (map fst rules))"
    by code_simp
  then have c: "\<forall>pat \<in> set (concat (map fst rules)).
      \<not> occurs_in pat (toLowerCase ''https://tiktok.com/@user/video/1'')"
    by (simp only: includes_str_occurs list_all_iff)
  from a b c detectPlatform_first_match [of "''https://Instagram.com/x.com''"]
    detectPlatform_first_match [of "''https://tiktok.com/@user/video/1''"]
  show ?thesis unfolding list_all_iff by blast
qed

subsection \<open>C5: a change to an unsupported link\<close>

text \<open>
  C5: when the input changes to a link that is not empty after trimming, is valid and is
  classified as unsupported, the session is in \<open>ValidUnsupported\<close> with the advisory
  message, the awaited fetches are the ones awaited before, and in no history at all is a
  fetch awaited for that link.
\<close>

theorem unsupported_starts_no_fetch:
  assumes "v \<noteq> url (session app)" "trim v \<noteq> []" "validateUrl URL_new v"
    "\<not> supported (detectPlatform v)"
  shows "ValidUnsupported (session (onChange URL_new v app))
    \<and> url (session (onChange URL_new v app)) = v
    \<and> inflight (onChange URL_new v app) = inflight app
    \<and> (\<forall>evs. v \<notin> fst ` set (inflight (run URL_new evs)))"
proof -
  have "onChange URL_new v app =
     app\<lparr>session := (session app)\<lparr>url := v, isValidUrl := True, detectedPlatform := Some platforms_default,
       error := Some ''This platform is not supported yet. We support Instagram, Facebook, X (Twitter), and Threads.''\<rparr>\<rparr>"
    using assms by (simp add: onChange_def Let_def useEffect_unsupported)
  moreover have "\<forall>evs. v \<notin> fst ` set (inflight (run URL_new evs))"
    using inflight_run [of URL_new] assms(4) by auto
  ultimately show ?thesis by (simp add: ValidUnsupported_def)
qed

theorem unsupported_starts_no_fetch_witness:
  "''https://tiktok.com/@user/video/1'' \<noteq> url (session (run scheme_URL typed))
   \<and> trim ''https://tiktok.com/@user/video/1'' \<noteq> []
   \<and> validateUrl scheme_URL ''https://tiktok.com/@user/video/1''
   \<and> \<not> supported (detectPlatform ''https://tiktok.com/@user/video/1'')
   \<and> ValidUnsupported (session (onChange scheme_URL ''https://tiktok.com/@user/video/1'' (run scheme_URL typed)))
   \<and> inflight (onChange scheme_URL ''https://tiktok.com/@user/video/1'' (run scheme_URL typed))
       = [(''https://instagram.com/p/a'', platforms_instagram)]"
proof -
  have a: "''https://tiktok.com/@user/video/1'' \<noteq> url (session (run scheme_URL typed))"
    by code_simp
  have b: "trim ''https://tiktok.com/@user/video/1'' \<noteq> []"
    by code_simp
  have c: "validateUrl scheme_URL ''https://tiktok.com/@user/video/1''"
    by code_simp
  have d: "\<not> supported (detectPlatform ''https://tiktok.com/@user/video/1'')"
    by code_simp
  have e: "inflight (run scheme_URL typed) = [(''https://instagram.com/p/a'', platforms_instagram)]"
    by code_simp
  from unsupported_starts_no_fetch [OF a b c d] a b c d e show ?thesis by simp
qed

subsection \<open>C6: what a settling fetch writes\<close>

text \<open>
  C6 says that when a fetch settles from the pending state, a success stores the content and
  clears pending and error, and a failure stores the failure message and clears pending and
  result. On \<open>awaited_then_unsupported\<close> the pending flag is set and a fetch is awaited;
  it resolves, and the error stays. On \<open>older_rejected\<close> the fetch for the link in the
  field is awaited; it resolves, and the error stays. On \<open>older_resolved\<close> the fetch for
  the link in the field is awaited; it is rejected, and the result stays.
\<close>

theorem settle_keeps_the_other_field:
  "isProcessing (session (run scheme_URL awaited_then_unsupported))
   \<and> inflight (run scheme_URL awaited_then_unsupported) = [(''https://instagram.com/p/a'', platforms_instagram)]
   \<and> map_option downloadUrl
        (mediaContent (session (settle 0 rolls_video (run scheme_URL awaited_then_unsupported))))
       = Some ''https://instagram.com/p/a''
   \<and> error (session (settle 0 rolls_video (run scheme_URL awaited_then_unsupported)))
       = Some ''This platform is not supported yet. We support Instagram, Facebook, X (Twitter), and Threads.''
   \<and> url (session (run scheme_URL older_rejected)) = ''https://instagram.com/p/ab''
   \<and> inflight (run scheme_URL older_rejected) = [(''https://instagram.com/p/ab'', platforms_instagram)]
   \<and> map_option downloadUrl (mediaContent (session (settle 0 rolls_video (run scheme_URL older_rejected))))
       = Some ''https://instagram.com/p/ab''
   \<and> error (session (settle 0 rolls_video (run scheme_URL older_rejected)))
       = Some ''Failed to process the URL. Please check the link and try again.''
   \<and> inflight (run scheme_URL older_resolved) = [(''https://instagram.com/p/ab'', platforms_instagram)]
   \<and> map_option downloadUrl (mediaContent (session (settle 0 rolls_reject (run scheme_URL older_resolved))))
       = Some ''https://instagram.com/p/a''
   \<and> error (session (settle 0 rolls_reject (run scheme_URL older_resolved)))
       = Some ''Failed to process the URL. Please check the link and try again.''"
  by code_simp

text \<open>
  C6, as the code has it: a fetch that resolves stores its content as the result and clears
  the pending flag; a fetch that is rejected stores the message "Failed to process the URL.
  Please check the link and try again." as the error and clears the pending flag; neither
  writes any other field. Result and error are cleared by \<open>processUrl\<close> when it starts
  the fetch, which leaves the session \<open>Pending\<close>; a fetch that settles in the state in
  which it was started leaves the session \<open>Ready\<close> with its content, or \<open>Failed\<close>.
\<close>

theorem settle_writes_its_outcome:
  "(i < length (inflight app) \<longrightarrow>
      session (settle i rnd app) =
        (case fetchMediaContent (fst (inflight app ! i)) (snd (inflight app ! i)) rnd of
           Inr content \<Rightarrow> (session app)\<lparr>mediaContent := Some content, isProcessing := False\<rparr>
         | Inl err \<Rightarrow> (session app)
             \<lparr>error := Some ''Failed to process the URL. Please check the link and try again.'',
              isProcessing := False\<rparr>))
   \<and> (isValidUrl render \<and> detectedPlatform render = Some platform \<and> supported platform \<longrightarrow>
        Pending (session (processUrl render inputUrl app))
        \<and> inflight (processUrl render inputUrl app) = inflight app @ [(inputUrl, platform)]
        \<and> (\<forall>content. fetchMediaContent inputUrl platform rnd = Inr content \<longrightarrow>
              Ready content
                (session (settle (length (inflight app)) rnd (processUrl render inputUrl app))))
        \<and> (\<forall>err. fetchMediaContent inputUrl platform rnd = Inl err \<longrightarrow>
              Failed (session (settle (length (inflight app)) rnd (processUrl render inputUrl app)))))"
proof (intro conjI impI)
  assume "i < length (inflight app)"
  then show "session (settle i rnd app) =
        (case fetchMediaContent (fst (inflight app ! i)) (snd (inflight app ! i)) rnd of
           Inr content \<Rightarrow> (session app)\<lparr>mediaContent := Some content, isProcessing := False\<rparr>
         | Inl err \<Rightarrow> (session app)
             \<lparr>error := Some ''Failed to process the URL. Please check the link and try again.'',
              isProcessing := False\<rparr>)"
    by (rule session_settle)
next
  assume g: "isValidUrl render \<and> detectedPlatform render = Some platform \<and> supported platform"
  define started where "started = processUrl render inputUrl app"
  from g have p: "Pending (session started)"
    and q: "inflight started = inflight app @ [(inputUrl, platform)]"
    by (simp_all add: started_def processUrl_Pending)
  from q have len: "length (inflight app) < length (inflight started)"
    and nth: "inflight started ! length (inflight app) = (inputUrl, platform)"
    by simp_all
  show "Pending (session (processUrl render inputUrl app))"
    using p by (simp add: started_def)
  show "inflight (processUrl render inputUrl app) = inflight app @ [(inputUrl, platform)]"
    using q by (simp add: started_def)
  show "\<forall>content. fetchMediaContent inputUrl platform rnd = Inr content \<longrightarrow>
      Ready content (session (settle (length (inflight app)) rnd (processUrl render inputUrl app)))"
    using p session_settle [OF len, of rnd] nth
    by (auto simp: started_def Pending_def Ready_def)
  show "\<forall>err. fetchMediaContent inputUrl platform rnd = Inl err \<longrightarrow>
      Failed (session (settle (length (inflight app)) rnd (processUrl render inputUrl app)))"
    using p session_settle [OF len, of rnd] nth
    by (auto simp: started_def Pending_def Failed_def)
qed

theorem settle_writes_its_outcome_witness:
  "0 < length (inflight (run scheme_URL typed))
   \<and> isValidUrl (session (run scheme_URL pasted))
   \<and> detectedPlatform (session (run scheme_URL pasted)) = Some platforms_instagram
   \<and> supported platforms_instagram
   \<and> Ready \<lparr>type = video,
        thumbnail = ''https://images.pexels.com/photos/1500/pexels-photo-2500.jpeg?auto=compress&cs=tinysrgb&w=400'',
        downloadUrl = ''https://instagram.com/p/xyz1'', title = Some ''Instagram Video'',
        duration = Some ''3:42'', resolution = Some ''1080p''\<rparr>
       (session (settle (length (inflight (run scheme_URL pasted))) rolls_video
          (processUrl (session (run scheme_URL pasted)) ''https://instagram.com/p/xyz1''
             (run scheme_URL pasted))))
   \<and> Failed
       (session (settle (length (inflight (run scheme_URL pasted))) rolls_reject
          (processUrl (session (run scheme_URL pasted)) ''https://instagram.com/p/xyz1''
             (run scheme_URL pasted))))
   \<and> error (session (settle 0 rolls_reject (run scheme_URL typed)))
       = Some ''Failed to process the URL. Please check the link and try again.''"
proof -
  have l: "0 < length (inflight (run scheme_URL typed))"
    by code_simp
  have g: "isValidUrl (session (run scheme_URL pasted))
      \<and> detectedPlatform (session (run scheme_URL pasted)) = Some platforms_instagram
      \<and> supported platforms_instagram"
    by code_simp
  have v: "fetchMediaContent ''https://instagram.com/p/xyz1'' platforms_instagram rolls_video =
     Inr \<lparr>type = video,
        thumbnail = ''https://images.pexels.com/photos/1500/pexels-photo-2500.jpeg?auto=compress&cs=tinysrgb&w=400'',
        downloadUrl = ''https://instagram.com/p/xyz1'', title = Some ''Instagram Video'',
        duration = Some ''3:42'', resolution = Some ''1080p''\<rparr>"
    by code_simp
  have r: "fetchMediaContent ''https://instagram.com/p/xyz1'' platforms_instagram rolls_reject
      = Inl ''Failed to extract media''"
    by (rule fetch_rolls_reject)
  have r': "fetchMediaContent (fst (inflight (run scheme_URL typed) ! 0))
      (snd (inflight (run scheme_URL typed) ! 0)) rolls_reject = Inl ''Failed to extract media''"
    by (rule fetch_rolls_reject)
  from settle_writes_its_outcome [of 0 "run scheme_URL typed" rolls_reject
      "session (run scheme_URL pasted)" platforms_instagram "''https://instagram.com/p/xyz1''"]
    settle_writes_its_outcome [of 0 "run scheme_URL pasted" rolls_video
      "session (run scheme_URL pasted)" platforms_instagram "''https://instagram.com/p/xyz1''"]
    settle_writes_its_outcome [of 0 "run scheme_URL pasted" rolls_reject
      "session (run scheme_URL pasted)" platforms_instagram "''https://instagram.com/p/xyz1''"]
    l g v r r'
  show ?thesis by simp
qed

subsection \<open>C7: the duration of a content\<close>

text \<open>
  C7: for every content that \<open>fetchMediaContent\<close> resolves to, with draws of the minutes
  and the seconds in the range of \<^verbatim>\<open>Math.random()\<close>, the duration is defined exactly when
  the type is video, and a defined duration is one digit of minutes from 1 to 3, a colon, and
  the seconds from 0 to 59 written with two digits.
\<close>

theorem duration_iff_video:
  assumes minutes: "is_random (random_minutes rnd)"
    and seconds: "is_random (random_seconds rnd)"
    and ok: "fetchMediaContent inputUrl platform rnd = Inr content"
  shows "(duration content \<noteq> None) = (type content = video)
    \<and> (\<forall>d. duration content = Some d \<longrightarrow>
         (\<exists>m s. d = digit_char m # CHR '':'' # [digit_char (s div 10), digit_char (s mod 10)]
            \<and> m = floor_times (random_minutes rnd) 3 + 1 \<and> 1 \<le> m \<and> m \<le> 3
            \<and> s = floor_times (random_seconds rnd) 60 \<and> s < 60))"
proof -
  define m where "m = floor_times (random_minutes rnd) 3 + 1"
  define s where "s = floor_times (random_seconds rnd) 60"
  have "floor_times (random_minutes rnd) 3 < 3"
    using floor_times_less [OF minutes, of 2 3] by simp
  then have m: "1 \<le> m" "m \<le> 3" by (simp_all add: m_def)
  have s: "s < 60"
    using floor_times_less [OF seconds, of 6 60] by (simp add: s_def)
  have tm: "toString m = [digit_char m]"
    using m by (simp add: toString_def digits_of_one)
  have ts: "padStart 2 (CHR ''0'') (toString s) = [digit_char (s div 10), digit_char (s mod 10)]"
    using s by (rule padStart_seconds)
  show ?thesis
  proof (cases "greater (random_isVideo rnd) literal_0_4")
    case True
    with ok have "type content = video"
      and "duration content = Some (digit_char m # CHR '':'' # [digit_char (s div 10), digit_char (s mod 10)])"
      using tm ts by (auto simp: fetchMediaContent_def Let_def m_def s_def split: if_splits)
    with m s show ?thesis by (auto simp: m_def s_def)
  next
    case False
    with ok have "type content = image" and "duration content = None"
      by (auto simp: fetchMediaContent_def Let_def split: if_splits)
    then show ?thesis by simp
  qed
qed

theorem duration_iff_video_witness:
  "is_random (random_minutes rolls_video) \<and> is_random (random_seconds rolls_video)
   \<and> (\<exists>content. fetchMediaContent ''https://instagram.com/p/a'' platforms_instagram rolls_video = Inr content
        \<and> duration content = Some ''3:42'' \<and> type content = video
        \<and> (duration content \<noteq> None) = (type content = video))"
proof -
  have r: "is_random (random_minutes rolls_video)" "is_random (random_seconds rolls_video)"
    by code_simp+
  have f: "fetchMediaContent ''https://instagram.com/p/a'' platforms_instagram rolls_video =
    Inr \<lparr>type = video,
        thumbnail = ''https://images.pexels.com/photos/1500/pexels-photo-2500.jpeg?auto=compress&cs=tinysrgb&w=400'',
        downloadUrl = ''https://instagram.com/p/a'', title = Some ''Instagram Video'',
        duration = Some ''3:42'', resolution = Some ''1080p''\<rparr>"
    by code_simp
  from duration_iff_video [OF r f] r f show ?thesis by simp
qed

subsection \<open>C8: reset and cleared input\<close>

text \<open>
  C8: from every state of the component, \<open>clearAndReset\<close> leaves the session with the
  default values (input empty, validity false, platform, result and error absent, pending
  false); clearing a non-empty input to the empty string leaves the same session; and a
  second reset changes nothing. \<open>clearAndReset\<close> is a total function: it has no failure.
\<close>

theorem reset_and_cleared_input:
  "session (clearAndReset URL_new app) =
     \<lparr>url = [], isValidUrl = False, detectedPlatform = None, isProcessing = False,
      mediaContent = None, error = None\<rparr>
   \<and> (url (session app) \<noteq> [] \<longrightarrow>
        session (onChange URL_new [] app) = session (clearAndReset URL_new app))
   \<and> clearAndReset URL_new (clearAndReset URL_new app) = clearAndReset URL_new app"
  by (simp add: clearAndReset_def clearAndReset_sets_def onChange_def Let_def useEffect_empty)

theorem reset_and_cleared_input_witness:
  "url (session (run scheme_URL ready_then_unsupported)) \<noteq> []
   \<and> session (onChange scheme_URL [] (run scheme_URL ready_then_unsupported)) = defaults
   \<and> session (clearAndReset scheme_URL (run scheme_URL ready_then_unsupported)) = defaults"
proof -
  have a: "url (session (run scheme_URL ready_then_unsupported)) \<noteq> []"
    by code_simp
  from reset_and_cleared_input [of scheme_URL "run scheme_URL ready_then_unsupported"] a
  show ?thesis by (simp add: defaults_def)
qed

subsection \<open>C10: links that are not http\<close>

text \<open>
  C10: \<open>validateUrl\<close> looks at no scheme. When the URL constructor accepts
  \<^verbatim>\<open>mailto:user@example.com\<close> and \<^verbatim>\<open>javascript:alert(1)\<close>, both are valid, both are
  classified as the Unknown descriptor, which is not supported, and a change of the input to
  either leaves the session in \<open>ValidUnsupported\<close>, not in the state of an invalid input.
\<close>

theorem validateUrl_scheme_agnostic:
  assumes "URL_new ''mailto:user@example.com'' = Inr u"
    and "URL_new ''javascript:alert(1)'' = Inr u'"
  shows "validateUrl URL_new ''mailto:user@example.com''
    \<and> validateUrl URL_new ''javascript:alert(1)''
    \<and> detectPlatform ''mailto:user@example.com'' = platforms_default
    \<and> detectPlatform ''javascript:alert(1)'' = platforms_default
    \<and> supported platforms_default = False
    \<and> (url (session app) \<noteq> ''mailto:user@example.com'' \<longrightarrow>
         ValidUnsupported (session (onChange URL_new ''mailto:user@example.com'' app)))
    \<and> (url (session app) \<noteq> ''javascript:alert(1)'' \<longrightarrow>
         ValidUnsupported (session (onChange URL_new ''javascript:alert(1)'' app)))"
proof -
  have v: "validateUrl URL_new ''mailto:user@example.com''" "validateUrl URL_new ''javascript:alert(1)''"
    using assms by (simp_all add: validateUrl_def)
  have d: "detectPlatform ''mailto:user@example.com'' = platforms_default"
    "detectPlatform ''javascript:alert(1)'' = platforms_default"
    by code_simp+
  have s: "supported platforms_default = False"
    by (simp add: platforms_default_def)
  have t: "trim ''mailto:user@example.com'' \<noteq> []" "trim ''javascript:alert(1)'' \<noteq> []"
    by code_simp+
  have "url (session app) \<noteq> ''mailto:user@example.com'' \<Longrightarrow>
         ValidUnsupported (session (onChange URL_new ''mailto:user@example.com'' app))"
    using v(1) d(1) s t(1)
    by (simp add: onChange_def Let_def useEffect_unsupported ValidUnsupported_def)
  moreover have "url (session app) \<noteq> ''javascript:alert(1)'' \<Longrightarrow>
         ValidUnsupported (session (onChange URL_new ''javascript:alert(1)'' app))"
    using v(2) d(2) s t(2)
    by (simp add: onChange_def Let_def useEffect_unsupported ValidUnsupported_def)
  ultimately show ?thesis using v d s by blast
qed

theorem validateUrl_scheme_agnostic_witness:
  "scheme_URL ''mailto:user@example.com'' = Inr ''mailto:user@example.com''
   \<and> scheme_URL ''javascript:alert(1)'' = Inr ''javascript:alert(1)''
   \<and> validateUrl scheme_URL ''mailto:user@example.com''
   \<and> validateUrl scheme_URL ''javascript:alert(1)''
   \<and> url (session (mount scheme_URL)) \<noteq> ''mailto:user@example.com''
   \<and> ValidUnsupported (session (onChange scheme_URL ''mailto:user@example.com'' (mount scheme_URL)))"
proof -
  have a: "scheme_URL ''mailto:user@example.com'' = Inr ''mailto:user@example.com''"
    by code_simp
  have b: "scheme_URL ''javascript:alert(1)'' = Inr ''javascript:alert(1)''"
    by code_simp
  have c: "url (session (mount scheme_URL)) \<noteq> ''mailto:user@example.com''"
    by code_simp
  from validateUrl_scheme_agnostic [OF a b, of "mount scheme_URL"] a b c
  show ?thesis by blast
qed

end
